theory Spec2Isabelle
  imports Main "HOL-Library.Sublist"
begin

section \<open>Backend: the user record and the in-memory user service\<close>

text \<open>
  The backend keeps its users in a static array of \<^verbatim>\<open>User\<close> objects and hands out
  identities from a static counter (\<^verbatim>\<open>services/user.service.ts\<close>). The model passes
  that state explicitly. Identities and the counter are JavaScript numbers that hold
  integers; timestamps are milliseconds.

  A \<^verbatim>\<open>Date\<close> object carries a time value or is invalid (\<open>None\<close>); on the client the
  creation date may also arrive as text, which the list comparator converts.
\<close>

type_synonym timestamp = int

datatype date_value = DateObj "timestamp option" | DateText string

text \<open>
  \<^verbatim>\<open>interface User\<close> of \<^verbatim>\<open>types/user.ts\<close>. An optional property is an option; \<open>None\<close>
  is the absent (\<^verbatim>\<open>undefined\<close>) property.
\<close>

record user =
  user_id :: int
  name :: string
  email :: string
  role :: "string option"
  createdAt :: "date_value option"
  password :: "string option"

record UserCreateDTO =
  new_name :: string
  new_email :: string
  new_password :: string
  new_role :: "string option"

record UserUpdateDTO =
  upd_name :: "string option"
  upd_email :: "string option"
  upd_role :: "string option"

text \<open>A thrown \<^verbatim>\<open>new Error(message)\<close>.\<close>

datatype error = Error string

record store =
  users :: "user list"
  idCounter :: int

definition init_store :: store where
  "init_store = \<lparr>users = [], idCounter = 1\<rparr>"

text \<open>
  \<^verbatim>\<open>try { ... } catch (error) { throw new Error(msg) }\<close>: whatever is thrown inside the
  block leaves it as \<open>Error msg\<close>.
\<close>

definition catch_as :: "string \<Rightarrow> error + 'a \<Rightarrow> error + 'a" where
  "catch_as msg r = (case r of Inl _ \<Rightarrow> Inl (Error msg) | Inr v \<Rightarrow> Inr v)"

text \<open>\<^verbatim>\<open>Array.prototype.findIndex\<close>; \<open>None\<close> stands for the result \<open>-1\<close>.\<close>

fun findIndex :: "('a \<Rightarrow> bool) \<Rightarrow> 'a list \<Rightarrow> nat option" where
  "findIndex P [] = None"
| "findIndex P (x # xs) =
     (if P x then Some 0 else map_option Suc (findIndex P xs))"

text \<open>\<^verbatim>\<open>xs.splice(i, 1)\<close> on an index inside the array.\<close>

definition splice1 :: "nat \<Rightarrow> 'a list \<Rightarrow> 'a list" where
  "splice1 i xs = take i xs @ drop (Suc i) xs"

definition sanitizeUser :: "user \<Rightarrow> user" where
  "sanitizeUser u = u\<lparr>password := None\<rparr>"

definition getUsers :: "store \<Rightarrow> user list" where
  "getUsers s = map sanitizeUser (users s)"

text \<open>
  The \<^verbatim>\<open>find\<close> of the two lookups runs a pure predicate and raises nothing, so their
  \<^verbatim>\<open>catch\<close> blocks are never entered.
\<close>

definition getUserById :: "int \<Rightarrow> store \<Rightarrow> user option" where
  "getUserById i s =
     (case find (\<lambda>u. user_id u = i) (users s) of
        Some u \<Rightarrow> Some (sanitizeUser u)
      | None \<Rightarrow> None)"

definition getUserByEmail :: "string \<Rightarrow> store \<Rightarrow> user option" where
  "getUserByEmail e s =
     (case find (\<lambda>u. email u = e) (users s) of
        Some u \<Rightarrow> Some (sanitizeUser u)
      | None \<Rightarrow> None)"

text \<open>
  \<^verbatim>\<open>this.idCounter++\<close> on a JavaScript number, a double: adding 1 is exact below
  \<open>2^53\<close>, and at \<open>2^53\<close> the sum is rounded back to \<open>2^53\<close>. From its initial value 1
  the counter takes no value outside the integers from 1 to \<open>2^53\<close>, for which the
  definition is meant.
\<close>

definition id_limit :: int where
  "id_limit = 2 ^ 53"

definition increment :: "int \<Rightarrow> int" where
  "increment n = (if n < id_limit then n + 1 else n)"

text \<open>
  \<^verbatim>\<open>bcrypt.hash\<close> and \<^verbatim>\<open>bcrypt.compare\<close> are external; they are parameters, and
  \<open>None\<close> is a rejected promise. The clock reading of \<^verbatim>\<open>new Date()\<close> is a parameter
  too. The counter is read and advanced only after the hash has been awaited.
\<close>

definition createUser ::
  "(string \<Rightarrow> string option) \<Rightarrow> timestamp \<Rightarrow> UserCreateDTO \<Rightarrow> store
     \<Rightarrow> (error + user) \<times> store" where
  "createUser hash now userData s =
     (case hash (new_password userData) of
        None \<Rightarrow> (Inl (Error ''Failed to create user''), s)
      | Some hashedPassword \<Rightarrow>
          (let newUser = \<lparr>user_id = idCounter s,
                          name = new_name userData,
                          email = new_email userData,
                          role = new_role userData,
                          createdAt = Some (DateObj (Some now)),
                          password = Some hashedPassword\<rparr>
           in (Inr (sanitizeUser newUser),
               s\<lparr>users := users s @ [newUser], idCounter := increment (idCounter s)\<rparr>)))"

text \<open>The three guarded assignments of \<^verbatim>\<open>updateUser\<close>.\<close>

definition assign_fields :: "UserUpdateDTO \<Rightarrow> user \<Rightarrow> user" where
  "assign_fields userData u =
     (let u1 = (case upd_name userData of Some n \<Rightarrow> u\<lparr>name := n\<rparr> | None \<Rightarrow> u);
          u2 = (case upd_email userData of Some e \<Rightarrow> u1\<lparr>email := e\<rparr> | None \<Rightarrow> u1);
          u3 = (case upd_role userData of Some r \<Rightarrow> u2\<lparr>role := Some r\<rparr> | None \<Rightarrow> u2)
      in u3)"

text \<open>The body of the \<^verbatim>\<open>try\<close> block of \<^verbatim>\<open>updateUser\<close>, then the method itself.\<close>

definition updateUser_try :: "int \<Rightarrow> UserUpdateDTO \<Rightarrow> store \<Rightarrow> (error + user) \<times> store" where
  "updateUser_try i userData s =
     (case findIndex (\<lambda>u. user_id u = i) (users s) of
        None \<Rightarrow> (Inl (Error ''User not found''), s)
      | Some userIndex \<Rightarrow>
          (let u = assign_fields userData (users s ! userIndex)
           in (Inr (sanitizeUser u), s\<lparr>users := (users s)[userIndex := u]\<rparr>)))"

definition updateUser :: "int \<Rightarrow> UserUpdateDTO \<Rightarrow> store \<Rightarrow> (error + user) \<times> store" where
  "updateUser i userData s =
     (case updateUser_try i userData s of
        (r, s') \<Rightarrow> (catch_as ''Failed to update user'' r, s'))"

definition deleteUser_try :: "int \<Rightarrow> store \<Rightarrow> (error + bool) \<times> store" where
  "deleteUser_try i s =
     (case findIndex (\<lambda>u. user_id u = i) (users s) of
        None \<Rightarrow> (Inl (Error ''User not found''), s)
      | Some userIndex \<Rightarrow> (Inr True, s\<lparr>users := splice1 userIndex (users s)\<rparr>))"

definition deleteUser :: "int \<Rightarrow> store \<Rightarrow> (error + bool) \<times> store" where
  "deleteUser i s =
     (case deleteUser_try i s of
        (r, s') \<Rightarrow> (catch_as ''Failed to delete user'' r, s'))"

text \<open>
  The secret of a login request is whatever JSON value the body holds under
  \<^verbatim>\<open>password\<close>: the route checks only that it exists. It is text or, as a number
  stands for here, a value that is not text. \<^verbatim>\<open>bcrypt.compare\<close> rejects a value that
  is not text; on text it is the parameter \<open>compare\<close>.
\<close>

datatype secret = Text string | Number int

definition bcrypt_compare ::
  "(string \<Rightarrow> string \<Rightarrow> bool option) \<Rightarrow> secret \<Rightarrow> string \<Rightarrow> bool option" where
  "bcrypt_compare compare pw h = (case pw of Text p \<Rightarrow> compare p h | Number n \<Rightarrow> None)"

text \<open>
  \<^verbatim>\<open>!user || !user.password\<close>: no record, no password property, or the empty text.
\<close>

definition verifyCredentials ::
  "(string \<Rightarrow> string \<Rightarrow> bool option) \<Rightarrow> string \<Rightarrow> secret \<Rightarrow> store
     \<Rightarrow> error + user option" where
  "verifyCredentials compare e pw s =
     (case find (\<lambda>u. email u = e) (users s) of
        None \<Rightarrow> Inr None
      | Some u \<Rightarrow>
          (case password u of
             None \<Rightarrow> Inr None
           | Some h \<Rightarrow>
               if h = [] then Inr None
               else (case bcrypt_compare compare pw h of
                       None \<Rightarrow> Inl (Error ''Failed to verify credentials'')
                     | Some passwordMatch \<Rightarrow>
                         if \<not> passwordMatch then Inr None
                         else Inr (Some (sanitizeUser u)))))"

subsection \<open>The service as one interface, and runs of calls\<close>

datatype call =
    GetUsers
  | GetUserById int
  | GetUserByEmail string
  | CreateUser "string \<Rightarrow> string option" timestamp UserCreateDTO
  | UpdateUser int UserUpdateDTO
  | DeleteUser int
  | VerifyCredentials "string \<Rightarrow> string \<Rightarrow> bool option" string secret

datatype reply =
    Records "user list"
  | RecordOrNull "user option"
  | Record user
  | Deleted bool
  | Thrown error

fun invoke :: "call \<Rightarrow> store \<Rightarrow> reply \<times> store" where
  "invoke GetUsers s = (Records (getUsers s), s)"
| "invoke (GetUserById i) s = (RecordOrNull (getUserById i s), s)"
| "invoke (GetUserByEmail e) s = (RecordOrNull (getUserByEmail e s), s)"
| "invoke (CreateUser hash now userData) s =
     (case createUser hash now userData s of
        (Inl err, s') \<Rightarrow> (Thrown err, s')
      | (Inr u, s') \<Rightarrow> (Record u, s'))"
| "invoke (UpdateUser i userData) s =
     (case updateUser i userData s of
        (Inl err, s') \<Rightarrow> (Thrown err, s')
      | (Inr u, s') \<Rightarrow> (Record u, s'))"
| "invoke (DeleteUser i) s =
     (case deleteUser i s of
        (Inl err, s') \<Rightarrow> (Thrown err, s')
      | (Inr b, s') \<Rightarrow> (Deleted b, s'))"
| "invoke (VerifyCredentials compare e pw) s =
     (case verifyCredentials compare e pw s of
        Inl err \<Rightarrow> (Thrown err, s)
      | Inr r \<Rightarrow> (RecordOrNull r, s))"

text \<open>The user records a reply carries to the caller.\<close>

fun records_of :: "reply \<Rightarrow> user list" where
  "records_of (Records us) = us"
| "records_of (RecordOrNull None) = []"
| "records_of (RecordOrNull (Some u)) = [u]"
| "records_of (Record u) = [u]"
| "records_of (Deleted b) = []"
| "records_of (Thrown err) = []"

text \<open>The identity a call has assigned: that of the record a \<^verbatim>\<open>createUser\<close> returned.\<close>

fun assigned_id :: "call \<Rightarrow> reply \<Rightarrow> int list" where
  "assigned_id (CreateUser hash now userData) (Record u) = [user_id u]"
| "assigned_id c r = []"

text \<open>
  A run of calls, one after the other, a failed call leaving the later ones to run
  (each HTTP request is served on its own). The result is the identities assigned, in
  the order of assignment, and the final store.
\<close>

fun run :: "call list \<Rightarrow> store \<Rightarrow> int list \<times> store" where
  "run [] s = ([], s)"
| "run (c # cs) s =
     (case invoke c s of
        (r, s') \<Rightarrow> (case run cs s' of (ids, s'') \<Rightarrow> (assigned_id c r @ ids, s'')))"

subsection \<open>The HTTP handlers\<close>

datatype body = ErrorBody string | TokenBody string | UserBody user

datatype response = Response nat body

text \<open>
  \<^verbatim>\<open>generateToken\<close> of \<^verbatim>\<open>utils/jwt.ts\<close> signs the identity and the email; the
  signing of the \<^verbatim>\<open>jsonwebtoken\<close> library is the parameter \<open>sign\<close>.
\<close>

definition generateToken :: "(int \<Rightarrow> string \<Rightarrow> string) \<Rightarrow> user \<Rightarrow> string" where
  "generateToken sign u = sign (user_id u) (email u)"

text \<open>
  \<^verbatim>\<open>POST /login\<close> after request validation. The handler has no \<^verbatim>\<open>try\<close> of its own:
  an error of \<^verbatim>\<open>verifyCredentials\<close> leaves it without an answer of its own (\<open>Inl\<close>),
  and the framework answers 500, as the router's test expects.
\<close>

definition login ::
  "(string \<Rightarrow> string \<Rightarrow> bool option) \<Rightarrow> (int \<Rightarrow> string \<Rightarrow> string) \<Rightarrow> string \<Rightarrow> secret
     \<Rightarrow> store \<Rightarrow> error + response" where
  "login compare sign e pw s =
     (case verifyCredentials compare e pw s of
        Inl err \<Rightarrow> Inl err
      | Inr None \<Rightarrow> Inr (Response 400 (ErrorBody ''Invalid credentials.''))
      | Inr (Some validUser) \<Rightarrow> Inr (Response 200 (TokenBody (generateToken sign validUser))))"

text \<open>
  \<^verbatim>\<open>PUT /:id\<close> after request validation, on the parsed identity and the three optional
  body fields. \<^verbatim>\<open>email && ...\<close> holds for a present, non-empty email.
\<close>

definition put_user :: "int \<Rightarrow> UserUpdateDTO \<Rightarrow> store \<Rightarrow> response \<times> store" where
  "put_user userId b s =
     (case getUserById userId s of
        None \<Rightarrow> (Response 404 (ErrorBody ''User not found''), s)
      | Some existingUser \<Rightarrow>
          if (case upd_email b of
                None \<Rightarrow> False
              | Some e \<Rightarrow> e \<noteq> [] \<and> e \<noteq> email existingUser \<and> getUserByEmail e s \<noteq> None)
          then (Response 409 (ErrorBody ''Email already exists''), s)
          else (case updateUser userId b s of
                  (Inl err, s') \<Rightarrow> (Response 500 (ErrorBody ''Failed to update user''), s')
                | (Inr updatedUser, s') \<Rightarrow> (Response 200 (UserBody updatedUser), s')))"

section \<open>Client: the user list component\<close>

text \<open>\<^verbatim>\<open>SortDirection\<close> and \<^verbatim>\<open>SortState\<close> of \<^verbatim>\<open>shared/models/sorting.model.ts\<close>.\<close>

datatype SortDirection = asc | desc

record SortState =
  field :: string
  direction :: SortDirection

text \<open>
  The value of a property read: text, a number or a \<^verbatim>\<open>Date\<close>.
\<close>

datatype jsval = Str string | Num int | DateV "timestamp option"

text \<open>
  Modelled from the spec: the client's \<^verbatim>\<open>User\<close> type (\<^verbatim>\<open>models/user.model.ts\<close>), which
  is not among the sources. The spec's user record (identity, name, email, optional
  role, created timestamp) and the component's test data agree with the backend's
  \<^verbatim>\<open>User\<close>, so the client's records are of the type \<open>user\<close>, a creation date received
  as JSON being a \<open>DateText\<close>. The function is the property read
  \<^verbatim>\<open>a[field as keyof User]\<close>; \<open>None\<close> is \<^verbatim>\<open>undefined\<close>, also for a name that is no
  property.
\<close>

definition property :: "string \<Rightarrow> user \<Rightarrow> jsval option" where
  "property fld u =
     (if fld = ''id'' then Some (Num (user_id u))
      else if fld = ''name'' then Some (Str (name u))
      else if fld = ''email'' then Some (Str (email u))
      else if fld = ''role'' then map_option Str (role u)
      else if fld = ''createdAt'' then
        (case createdAt u of
           None \<Rightarrow> None
         | Some (DateObj t) \<Rightarrow> Some (DateV t)
         | Some (DateText x) \<Rightarrow> Some (Str x))
      else if fld = ''password'' then map_option Str (password u)
      else None)"

text \<open>
  What the comparator takes from the JavaScript runtime: \<^verbatim>\<open>String.prototype.localeCompare\<close>,
  the date parser behind \<^verbatim>\<open>new Date(text)\<close> (\<open>None\<close> for an invalid date) and the
  conversion of text to a number that \<^verbatim>\<open><\<close> applies (\<open>None\<close> for \<^verbatim>\<open>NaN\<close>).
\<close>

record runtime =
  localeCompare :: "string \<Rightarrow> string \<Rightarrow> int"
  parseDate :: "string \<Rightarrow> timestamp option"
  textToNumber :: "string \<Rightarrow> int option"

text \<open>\<^verbatim>\<open>v instanceof Date ? v : new Date(v as string)\<close>.\<close>

definition toDate :: "runtime \<Rightarrow> jsval \<Rightarrow> jsval" where
  "toDate rt v =
     (case v of
        DateV t \<Rightarrow> DateV t
      | Str x \<Rightarrow> DateV (parseDate rt x)
      | Num n \<Rightarrow> DateV (Some n))"

text \<open>
  \<^verbatim>\<open><\<close> on two values that are not both text: both become numbers, and a comparison
  with \<^verbatim>\<open>NaN\<close> is false.
\<close>

definition toNumber :: "runtime \<Rightarrow> jsval \<Rightarrow> int option" where
  "toNumber rt v = (case v of Num n \<Rightarrow> Some n | DateV t \<Rightarrow> t | Str x \<Rightarrow> textToNumber rt x)"

definition js_less :: "runtime \<Rightarrow> jsval \<Rightarrow> jsval \<Rightarrow> bool" where
  "js_less rt v w =
     (case (toNumber rt v, toNumber rt w) of
        (Some m, Some n) \<Rightarrow> m < n
      | _ \<Rightarrow> False)"

text \<open>The comparator that \<^verbatim>\<open>applySorting\<close> passes to \<^verbatim>\<open>sort\<close>.\<close>

definition compareUsers :: "runtime \<Rightarrow> string \<Rightarrow> SortDirection \<Rightarrow> user \<Rightarrow> user \<Rightarrow> int" where
  "compareUsers rt fld dir a b =
     (case property fld a of
        None \<Rightarrow> (if dir = asc then - 1 else 1)
      | Some valueA \<Rightarrow>
          (case property fld b of
             None \<Rightarrow> (if dir = asc then 1 else - 1)
           | Some valueB \<Rightarrow>
               (let vA = (if fld = ''createdAt'' then toDate rt valueA else valueA);
                    vB = (if fld = ''createdAt'' then toDate rt valueB else valueB)
                in case (vA, vB) of
                     (Str x, Str y) \<Rightarrow>
                       (if dir = asc then localeCompare rt x y else localeCompare rt y x)
                   | _ \<Rightarrow>
                       (if dir = asc
                        then (if js_less rt vA vB then - 1 else if js_less rt vB vA then 1 else 0)
                        else (if js_less rt vB vA then - 1 else if js_less rt vA vB then 1 else 0)))))"

text \<open>
  \<^verbatim>\<open>Array.prototype.sort\<close> with a comparator: a stable sort, an element going before
  another when the comparator's answer on them is not positive. For a consistent
  comparator every conforming engine gives this order; for an inconsistent one the
  language leaves the order to the engine.
\<close>

fun insert_by :: "('a \<Rightarrow> 'a \<Rightarrow> int) \<Rightarrow> 'a \<Rightarrow> 'a list \<Rightarrow> 'a list" where
  "insert_by cmp x [] = [x]"
| "insert_by cmp x (y # ys) =
     (if cmp x y \<le> 0 then x # y # ys else y # insert_by cmp x ys)"

definition js_sort :: "('a \<Rightarrow> 'a \<Rightarrow> int) \<Rightarrow> 'a list \<Rightarrow> 'a list" where
  "js_sort cmp xs = foldr (insert_by cmp) xs []"

text \<open>
  \<^verbatim>\<open>xs.slice(0, n)\<close> for an integral \<open>n\<close>: a negative end counts from the end of
  the array.
\<close>

definition slice0 :: "int \<Rightarrow> 'a list \<Rightarrow> 'a list" where
  "slice0 n xs =
     (if n < 0 then take (nat (int (length xs) + n)) xs else take (nat n) xs)"

text \<open>
  Text operations of the filter, on ASCII text: \<^verbatim>\<open>toLowerCase\<close>, \<^verbatim>\<open>trim\<close> and
  \<^verbatim>\<open>String.prototype.includes\<close>.
\<close>

definition lower_char :: "char \<Rightarrow> char" where
  "lower_char c =
     (let n = (of_char c :: nat)
      in if 65 \<le> n \<and> n \<le> 90 then char_of (n + 32) else c)"

definition toLowerCase :: "string \<Rightarrow> string" where
  "toLowerCase x = map lower_char x"

definition is_space :: "char \<Rightarrow> bool" where
  "is_space c = (c \<in> set [CHR '' '', CHR 0x09, CHR 0x0A, CHR 0x0B, CHR 0x0C, CHR 0x0D])"

definition trim :: "string \<Rightarrow> string" where
  "trim x = rev (dropWhile is_space (rev (dropWhile is_space x)))"

fun starts_with :: "string \<Rightarrow> string \<Rightarrow> bool" where
  "starts_with x [] = True"
| "starts_with [] (c # cs) = False"
| "starts_with (d # ds) (c # cs) = (d = c \<and> starts_with ds cs)"

fun includes_text :: "string \<Rightarrow> string \<Rightarrow> bool" where
  "includes_text [] y = (y = [])"
| "includes_text (d # ds) y = (starts_with (d # ds) y \<or> includes_text ds y)"

text \<open>The predicate of the \<^verbatim>\<open>filter\<close> call in \<^verbatim>\<open>filterUsers\<close>; an empty role is falsy.\<close>

definition matches :: "string \<Rightarrow> user \<Rightarrow> bool" where
  "matches ft u =
     (includes_text (toLowerCase (name u)) ft \<or>
      includes_text (toLowerCase (email u)) ft \<or>
      (case role u of
         None \<Rightarrow> False
       | Some r \<Rightarrow> r \<noteq> [] \<and> includes_text (toLowerCase r) ft))"

subsection \<open>The component's state, with its arrays in a store\<close>

text \<open>
  \<^verbatim>\<open>users\<close> and \<^verbatim>\<open>allUsers\<close> hold references to arrays, and \<^verbatim>\<open>sort\<close> works in place,
  so the arrays live in a store: \<open>heap\<close> maps an address to the array's elements and
  \<open>free\<close> is the first address not yet allocated. The fields \<open>users_ref\<close> and
  \<open>allUsers_ref\<close> are the component's \<^verbatim>\<open>users\<close> and \<^verbatim>\<open>allUsers\<close>. A \<^verbatim>\<open>limit\<close> is
  integral.
\<close>

type_synonym ref = nat

record component =
  limit :: "int option"
  users_ref :: ref
  allUsers_ref :: ref
  loading :: bool
  error :: "string option"
  filterText :: string
  currentSort :: SortState
  heap :: "ref \<Rightarrow> user list"
  free :: ref

text \<open>A component as constructed: two distinct empty arrays, sorted by name ascending.\<close>

definition new_component :: "int option \<Rightarrow> component" where
  "new_component lim =
     \<lparr>limit = lim, users_ref = 0, allUsers_ref = 1, loading = False, error = None,
      filterText = [], currentSort = \<lparr>field = ''name'', direction = asc\<rparr>,
      heap = (\<lambda>r. []), free = 2\<rparr>"

text \<open>The arrays the two fields refer to.\<close>

definition displayed :: "component \<Rightarrow> user list" where
  "displayed c = heap c (users_ref c)"

definition fetched :: "component \<Rightarrow> user list" where
  "fetched c = heap c (allUsers_ref c)"

text \<open>A new array with the given elements: a literal, a copy, a \<^verbatim>\<open>filter\<close> or a \<^verbatim>\<open>slice\<close>.\<close>

definition alloc :: "user list \<Rightarrow> component \<Rightarrow> ref \<times> component" where
  "alloc xs c = (free c, c\<lparr>heap := (heap c)(free c := xs), free := Suc (free c)\<rparr>)"

text \<open>\<^verbatim>\<open>[...data].sort(comparator)\<close>: copy the array, sort the copy in place, return it.\<close>

definition applySorting ::
  "runtime \<Rightarrow> ref \<Rightarrow> string \<Rightarrow> SortDirection \<Rightarrow> component \<Rightarrow> ref \<times> component" where
  "applySorting rt data fld dir c =
     (case alloc (heap c data) c of
        (r, c1) \<Rightarrow>
          (r, c1\<lparr>heap := (heap c1)(r := js_sort (compareUsers rt fld dir) (heap c1 r))\<rparr>))"

text \<open>
  \<^verbatim>\<open>if (this.limit) { this.users = this.users.slice(0, this.limit); }\<close>: \<^verbatim>\<open>null\<close> and
  \<open>0\<close> are falsy.
\<close>

definition apply_limit :: "component \<Rightarrow> component" where
  "apply_limit c =
     (case limit c of
        None \<Rightarrow> c
      | Some n \<Rightarrow>
          if n = 0 then c
          else (case alloc (slice0 n (heap c (users_ref c))) c of
                  (r, c1) \<Rightarrow> c1\<lparr>users_ref := r\<rparr>))"

definition sortUsers :: "runtime \<Rightarrow> string \<Rightarrow> SortDirection option \<Rightarrow> component \<Rightarrow> component" where
  "sortUsers rt fld given c =
     (let dir = (case given of
                   Some d \<Rightarrow> d
                 | None \<Rightarrow>
                     if fld = field (currentSort c) \<and> direction (currentSort c) = asc
                     then desc else asc);
          c1 = c\<lparr>currentSort := \<lparr>field = fld, direction = dir\<rparr>\<rparr>
      in case (if filterText c1 \<noteq> [] then (users_ref c1, c1)
               else alloc (heap c1 (allUsers_ref c1)) c1) of
           (dataToSort, c2) \<Rightarrow>
             (case applySorting rt dataToSort fld dir c2 of
                (r, c3) \<Rightarrow> apply_limit (c3\<lparr>users_ref := r\<rparr>)))"

definition filterUsers :: "runtime \<Rightarrow> string \<Rightarrow> component \<Rightarrow> component" where
  "filterUsers rt typed c =
     (let c1 = c\<lparr>filterText := trim (toLowerCase typed)\<rparr>
      in if filterText c1 = []
         then sortUsers rt (field (currentSort c1)) (Some (direction (currentSort c1))) c1
         else (case alloc (filter (matches (filterText c1)) (heap c1 (allUsers_ref c1))) c1 of
                 (filtered, c2) \<Rightarrow>
                   (case applySorting rt filtered (field (currentSort c2))
                           (direction (currentSort c2)) c2 of
                      (r, c3) \<Rightarrow> apply_limit (c3\<lparr>users_ref := r\<rparr>))))"

text \<open>
  What the subscription of \<^verbatim>\<open>getUsers\<close> receives: \<^verbatim>\<open>next(data)\<close> with a new array, or
  \<^verbatim>\<open>error(err)\<close>.
\<close>

datatype fetch = Fetched "user list" | FetchFailed string

definition getUsers_component :: "runtime \<Rightarrow> fetch \<Rightarrow> component \<Rightarrow> component" where
  "getUsers_component rt outcome c =
     (let c0 = c\<lparr>loading := True, error := None\<rparr>
      in case outcome of
           Fetched data \<Rightarrow>
             (case alloc data c0 of
                (r, c1) \<Rightarrow>
                  (let c2 = c1\<lparr>allUsers_ref := r\<rparr>;
                       c3 = sortUsers rt (field (currentSort c2))
                              (Some (direction (currentSort c2))) c2
                   in c3\<lparr>loading := False\<rparr>))
         | FetchFailed err \<Rightarrow>
             c0\<lparr>error := Some ''Failed to load users. Please try again later.'',
                loading := False\<rparr>)"

subsection \<open>The pipeline as the specification words it\<close>

text \<open>
  Filter the full fetched set, sort the result, then cut it to the cap. An empty
  filter text keeps every record.
\<close>

definition spec_pipeline :: "runtime \<Rightarrow> component \<Rightarrow> user list" where
  "spec_pipeline rt c =
     (let filtered = (if filterText c = [] then fetched c
                      else filter (matches (filterText c)) (fetched c));
          sorted = js_sort (compareUsers rt (field (currentSort c)) (direction (currentSort c)))
                     filtered
      in case limit c of
           None \<Rightarrow> sorted
         | Some n \<Rightarrow> take (nat n) sorted)"

subsection \<open>Concrete data for evaluation\<close>

text \<open>A runtime whose \<^verbatim>\<open>localeCompare\<close> orders text by character codes.\<close>

fun code_compare :: "string \<Rightarrow> string \<Rightarrow> int" where
  "code_compare [] [] = 0"
| "code_compare [] (c # cs) = - 1"
| "code_compare (d # ds) [] = 1"
| "code_compare (d # ds) (c # cs) =
     (if (of_char d :: nat) < of_char c then - 1
      else if (of_char c :: nat) < of_char d then 1
      else code_compare ds cs)"

definition plain_runtime :: runtime where
  "plain_runtime =
     \<lparr>localeCompare = code_compare, parseDate = (\<lambda>x. None), textToNumber = (\<lambda>x. None)\<rparr>"

definition mk_user :: "int \<Rightarrow> string \<Rightarrow> string \<Rightarrow> string option \<Rightarrow> user" where
  "mk_user i n e r =
     \<lparr>user_id = i, name = n, email = e, role = r, createdAt = None, password = None\<rparr>"

definition alice :: user where
  "alice = mk_user 1 ''Alice'' ''alice@example.com'' None"

definition bob :: user where
  "bob = mk_user 2 ''Bob'' ''bob@example.com'' (Some ''User'')"

definition carol :: user where
  "carol = mk_user 3 ''Carol'' ''carol@example.com'' (Some ''Editor'')"

text \<open>A hash that always succeeds, and a store after two registrations.\<close>

definition plain_hash :: "string \<Rightarrow> string option" where
  "plain_hash pw = Some (''hashed:'' @ pw)"

definition new_alice :: UserCreateDTO where
  "new_alice = \<lparr>new_name = ''Alice'', new_email = ''alice@example.com'',
                 new_password = ''secret-one'', new_role = None\<rparr>"

definition new_bob :: UserCreateDTO where
  "new_bob = \<lparr>new_name = ''Bob'', new_email = ''bob@example.com'',
               new_password = ''secret-two'', new_role = Some ''User''\<rparr>"

definition two_users :: store where
  "two_users =
     snd (createUser plain_hash 20 new_bob (snd (createUser plain_hash 10 new_alice init_store)))"

text \<open>The two records of that store, as stored.\<close>

definition stored_alice :: user where
  "stored_alice =
     \<lparr>user_id = 1, name = ''Alice'', email = ''alice@example.com'', role = None,
      createdAt = Some (DateObj (Some 10)), password = Some ''hashed:secret-one''\<rparr>"

definition stored_bob :: user where
  "stored_bob =
     \<lparr>user_id = 2, name = ''Bob'', email = ''bob@example.com'', role = Some ''User'',
      createdAt = Some (DateObj (Some 20)), password = Some ''hashed:secret-two''\<rparr>"

text \<open>The comparison and the signing that go with \<open>plain_hash\<close>.\<close>

definition plain_compare :: "string \<Rightarrow> string \<Rightarrow> bool option" where
  "plain_compare pw h = Some (h = ''hashed:'' @ pw)"

definition plain_sign :: "int \<Rightarrow> string \<Rightarrow> string" where
  "plain_sign i e = ''token:'' @ e"

text \<open>Two partial updates: a new name, and the email of the first record.\<close>

definition ghost :: UserUpdateDTO where
  "ghost = \<lparr>upd_name = Some ''Ghost'', upd_email = None, upd_role = None\<rparr>"

definition take_alices_email :: UserUpdateDTO where
  "take_alices_email =
     \<lparr>upd_name = None, upd_email = Some ''alice@example.com'', upd_role = None\<rparr>"



text \<open>
  Components: one that has fetched two records, and one with a cap of two that has
  fetched three records, then filtered by \<open>'' Example ''\<close>, then received a sort request
  for the name with no direction.
\<close>

definition loaded_pair :: component where
  "loaded_pair = getUsers_component plain_runtime (Fetched [alice, bob]) (new_component None)"

definition loaded_three :: component where
  "loaded_three =
     getUsers_component plain_runtime (Fetched [carol, alice, bob]) (new_component (Some 2))"

definition filtered_three :: component where
  "filtered_three = filterUsers plain_runtime '' Example '' loaded_three"

definition resorted_three :: component where
  "resorted_three = sortUsers plain_runtime ''name'' None filtered_three"

section \<open>Auxiliary notions for the proofs\<close>

text \<open>The identities of the live records.\<close>

definition ids_of :: "store \<Rightarrow> int list" where
  "ids_of s = map user_id (users s)"

text \<open>
  The identity that the creation after \<open>j\<close> earlier ones gets when the counter
  starts at \<open>k\<close>, and the first \<open>n\<close> of these identities.
\<close>

definition nth_id :: "int \<Rightarrow> nat \<Rightarrow> int" where
  "nth_id k j = min (k + int j) id_limit"

definition ids_from :: "int \<Rightarrow> nat \<Rightarrow> int list" where
  "ids_from k n = map (nth_id k) [0..<n]"

text \<open>
  A component whose two array references are allocated, and what an operation may do
  to the store of arrays: allocate, and leave every array allocated before as it was.
\<close>

definition wf_component :: "component \<Rightarrow> bool" where
  "wf_component c \<longleftrightarrow> users_ref c < free c \<and> allUsers_ref c < free c"

definition unchanged_below :: "component \<Rightarrow> component \<Rightarrow> bool" where
  "unchanged_below c c' \<longleftrightarrow>
     free c \<le> free c' \<and> (\<forall>r. r < free c \<longrightarrow> heap c' r = heap c r) \<and>
     allUsers_ref c' = allUsers_ref c"

text \<open>The elements that the cap of \<^verbatim>\<open>this.limit\<close> leaves of a list.\<close>

definition cap_list :: "int option \<Rightarrow> user list \<Rightarrow> user list" where
  "cap_list lim xs =
     (case lim of None \<Rightarrow> xs | Some n \<Rightarrow> if n = 0 then xs else slice0 n xs)"

section \<open>The user service\<close>

subsection \<open>Sanitization\<close>

lemma password_sanitizeUser: "password (sanitizeUser u) = None"
  by (simp add: sanitizeUser_def)

lemma user_id_sanitizeUser: "user_id (sanitizeUser u) = user_id u"
  by (simp add: sanitizeUser_def)

lemma createUser_sanitized: "fst (createUser hash now d s) = Inr u \<Longrightarrow> password u = None"
  by (auto simp: createUser_def Let_def password_sanitizeUser split: option.splits)

lemma updateUser_sanitized: "fst (updateUser i d s) = Inr u \<Longrightarrow> password u = None"
  by (auto simp: updateUser_def updateUser_try_def catch_as_def Let_def password_sanitizeUser
      split: option.splits)

lemma verifyCredentials_sanitized:
  "verifyCredentials cmp e pw s = Inr (Some u) \<Longrightarrow> password u = None"
  by (auto simp: verifyCredentials_def password_sanitizeUser split: option.splits if_splits)

lemma set_records_of_RecordOrNull: "set (records_of (RecordOrNull b)) = set_option b"
  by (cases b) simp_all

text \<open>
  Claim C1. In every store state, every record that a service operation returns
  (\<^verbatim>\<open>getUsers\<close>, \<^verbatim>\<open>getUserById\<close>, \<^verbatim>\<open>getUserByEmail\<close>, \<^verbatim>\<open>createUser\<close>, \<^verbatim>\<open>updateUser\<close>,
  \<^verbatim>\<open>verifyCredentials\<close>), and every element of a returned list, has no password
  property.
\<close>

theorem returned_records_have_no_password: "\<forall>u \<in> set (records_of (fst (invoke c s))). password u = None"
proof (cases c)
  case GetUsers
  then show ?thesis by (simp add: getUsers_def password_sanitizeUser)
next
  case (GetUserById i)
  then show ?thesis
    by (auto simp: getUserById_def password_sanitizeUser set_records_of_RecordOrNull split: option.splits)
next
  case (GetUserByEmail e)
  then show ?thesis
    by (auto simp: getUserByEmail_def password_sanitizeUser set_records_of_RecordOrNull split: option.splits)
next
  case (CreateUser hash now d)
  then show ?thesis
    using createUser_sanitized [of hash now d s]
    by (auto split: prod.splits sum.splits)
next
  case (UpdateUser i d)
  then show ?thesis
    using updateUser_sanitized [of i d s]
    by (auto split: prod.splits sum.splits)
next
  case (DeleteUser i)
  then show ?thesis by (auto split: prod.splits sum.splits)
next
  case (VerifyCredentials cmp e pw)
  then show ?thesis
    using verifyCredentials_sanitized [of cmp e pw s]
    by (auto simp: set_records_of_RecordOrNull split: sum.splits)
qed

subsection \<open>Identities\<close>

lemma user_id_assign_fields: "user_id (assign_fields d u) = user_id u"
  by (simp add: assign_fields_def Let_def split: option.splits)

lemma findIndex_Some:
  "findIndex P xs = Some k \<Longrightarrow> k < length xs \<and> P (xs ! k) \<and> (\<forall>j<k. \<not> P (xs ! j))"
proof (induction xs arbitrary: k)
  case Nil
  then show ?case by simp
next
  case (Cons x xs)
  show ?case
  proof (cases "P x")
    case True
    with Cons.prems show ?thesis by simp
  next
    case False
    with Cons.prems obtain k' where k: "findIndex P xs = Some k'" "k = Suc k'"
      by auto
    from Cons.IH [OF k(1)] False k(2) show ?thesis
      by (auto simp: nth_Cons split: nat.splits)
  qed
qed

lemma findIndex_None: "findIndex P xs = None \<longleftrightarrow> find P xs = None"
  by (induction xs) auto

lemma id_limit_positive: "1 \<le> id_limit"
  by (simp add: id_limit_def)

lemma increment_min: "n \<le> id_limit \<Longrightarrow> increment n = min (n + 1) id_limit"
  by (simp add: increment_def)

lemma ids_from_0: "ids_from k 0 = []"
  by (simp add: ids_from_def)


lemma ids_from_Suc:
  "k \<le> id_limit \<Longrightarrow> ids_from k (Suc n) = k # ids_from (increment k) n"
  by (auto simp: ids_from_def map_upt_Suc nth_id_def increment_min min_def simp del: upt_Suc)

lemma createUser_step:
  assumes "createUser hash now d s = (r, s')"
  shows "(\<exists>e. r = Inl e \<and> s' = s) \<or>
         (\<exists>u. r = Inr u \<and> user_id u = idCounter s \<and> idCounter s' = increment (idCounter s) \<and>
              ids_of s' = ids_of s @ [idCounter s])"
  using assms
  by (auto simp: createUser_def Let_def user_id_sanitizeUser ids_of_def split: option.splits)

lemma updateUser_step:
  assumes "updateUser i d s = (r, s')"
  shows "idCounter s' = idCounter s \<and> ids_of s' = ids_of s"
proof (cases "findIndex (\<lambda>u. user_id u = i) (users s)")
  case None
  with assms show ?thesis
    by (auto simp: updateUser_def updateUser_try_def ids_of_def)
next
  case (Some k)
  then have "k < length (users s)" by (auto dest: findIndex_Some)
  with assms Some show ?thesis
    by (auto simp: updateUser_def updateUser_try_def Let_def map_update user_id_assign_fields
        ids_of_def intro!: nth_equalityI simp: nth_list_update)
qed

lemma map_splice1: "map f (splice1 k xs) = splice1 k (map f xs)"
  by (simp add: splice1_def take_map drop_map)

lemma deleteUser_step:
  assumes "deleteUser i s = (r, s')"
  shows "idCounter s' = idCounter s \<and>
         (ids_of s' = ids_of s \<or> (\<exists>k. ids_of s' = splice1 k (ids_of s)))"
  using assms
  by (auto simp: deleteUser_def deleteUser_try_def map_splice1 ids_of_def split: option.splits)

lemma subseq_splice1: "subseq (splice1 k xs) xs"
proof -
  have "subseq (drop (Suc k) xs) (drop k xs)"
  proof (cases "k < length xs")
    case True
    then have "drop k xs = xs ! k # drop (Suc k) xs" by (simp add: Cons_nth_drop_Suc)
    then show ?thesis by (metis list_emb_Cons subseq_order.order_refl)
  next
    case False
    then show ?thesis by simp
  qed
  then have "subseq (take k xs @ drop (Suc k) xs) (take k xs @ drop k xs)"
    by (rule subseq_append' [THEN iffD2])
  then show ?thesis by (simp only: splice1_def append_take_drop_id)
qed

text \<open>
  One call: the counter stays or is incremented, the identity assigned is the old
  counter, and the live identities are among the old ones and the one assigned, in
  that order.
\<close>

lemma invoke_step:
  assumes "invoke c s = (r, s')"
  shows "(assigned_id c r = [] \<and> idCounter s' = idCounter s \<or>
          assigned_id c r = [idCounter s] \<and> idCounter s' = increment (idCounter s)) \<and>
         subseq (ids_of s') (ids_of s @ assigned_id c r)"
proof (cases c)
  case (CreateUser hash now d)
  obtain r0 s0 where c0: "createUser hash now d s = (r0, s0)" by (cases "createUser hash now d s")
  from createUser_step [OF c0] assms CreateUser c0 show ?thesis by auto
next
  case (UpdateUser i d)
  obtain r0 s0 where c0: "updateUser i d s = (r0, s0)" by (cases "updateUser i d s")
  from assms UpdateUser c0 have "s' = s0" "assigned_id c r = []" by (auto split: sum.splits)
  with updateUser_step [OF c0] show ?thesis by simp
next
  case (DeleteUser i)
  obtain r0 s0 where c0: "deleteUser i s = (r0, s0)" by (cases "deleteUser i s")
  from assms DeleteUser c0 have e: "s' = s0" "assigned_id c r = []" by (auto split: sum.splits)
  with deleteUser_step [OF c0] show ?thesis by (auto simp: subseq_splice1)
next
  case GetUsers
  with assms show ?thesis by auto
next
  case (GetUserById i)
  with assms show ?thesis by auto
next
  case (GetUserByEmail e)
  with assms show ?thesis by auto
next
  case (VerifyCredentials cmp e pw)
  with assms show ?thesis by (auto split: sum.splits)
qed

lemma increment_le: "k \<le> id_limit \<Longrightarrow> increment k \<le> id_limit"
  by (simp add: increment_def)

text \<open>
  A run: the identities assigned are the counter's values one after the other, the
  live identities are among the old ones and those assigned, in that order.
\<close>

lemma run_ids:
  assumes "run cs s = (ids, s')" and "idCounter s \<le> id_limit"
  shows "ids = ids_from (idCounter s) (length ids) \<and>
         idCounter s' = nth_id (idCounter s) (length ids) \<and>
         subseq (ids_of s') (ids_of s @ ids)"
  using assms
proof (induction cs arbitrary: s ids s')
  case Nil
  then show ?case by (simp add: ids_from_0 nth_id_def)
next
  case (Cons c cs)
  obtain r s1 where i: "invoke c s = (r, s1)" by (cases "invoke c s")
  obtain ids1 s2 where r: "run cs s1 = (ids1, s2)" by (cases "run cs s1")
  from Cons.prems i r have eq: "ids = assigned_id c r @ ids1" "s' = s2" by auto
  note st = invoke_step [OF i]
  from st Cons.prems(2) have le: "idCounter s1 \<le> id_limit"
    by (auto simp: increment_le)
  note ih = Cons.IH [OF r le]
  have sub: "subseq (ids_of s2) (ids_of s @ assigned_id c r @ ids1)"
  proof -
    from st have "subseq (ids_of s1) (ids_of s @ assigned_id c r)" by simp
    then have "subseq (ids_of s1 @ ids1) ((ids_of s @ assigned_id c r) @ ids1)"
      by (rule list_emb_append_mono) simp
    moreover from ih have "subseq (ids_of s2) (ids_of s1 @ ids1)" by simp
    ultimately have "subseq (ids_of s2) ((ids_of s @ assigned_id c r) @ ids1)"
      by (rule subseq_order.order_trans [rotated])
    then show ?thesis by simp
  qed
  from st show ?case
  proof (elim conjE disjE)
    assume "assigned_id c r = []" "idCounter s1 = idCounter s"
    with ih eq sub show ?thesis by simp
  next
    assume a: "assigned_id c r = [idCounter s]" "idCounter s1 = increment (idCounter s)"
    have "nth_id (increment (idCounter s)) (length ids1) = nth_id (idCounter s) (Suc (length ids1))"
      using Cons.prems(2) by (simp add: nth_id_def increment_min)
    with a ih eq sub Cons.prems(2) show ?thesis
      by (simp add: ids_from_Suc)
  qed
qed





lemma idCounter_init: "idCounter init_store = 1 \<and> ids_of init_store = []"
  by (simp add: init_store_def ids_of_def)

lemma run_from_init:
  assumes "run cs init_store = (ids, s')"
  shows "ids = ids_from 1 (length ids) \<and> idCounter s' = nth_id 1 (length ids) \<and>
         subseq (ids_of s') ids"
  using run_ids [OF assms] id_limit_positive by (simp add: idCounter_init)

text \<open>The counter stays between 1 and \<open>2^53\<close> in every run from the empty store.\<close>

lemma counter_range:
  "1 \<le> idCounter (snd (run cs init_store)) \<and> idCounter (snd (run cs init_store)) \<le> id_limit"
proof -
  obtain ids s' where r: "run cs init_store = (ids, s')" by (cases "run cs init_store")
  from run_from_init [OF r] id_limit_positive show ?thesis
    by (simp add: r nth_id_def)
qed


text \<open>The store after the two registrations, evaluated.\<close>

lemma two_users_eq: "two_users = \<lparr>users = [stored_alice, stored_bob], idCounter = 3\<rparr>"
  by (simp add: two_users_def createUser_def plain_hash_def new_alice_def new_bob_def
      init_store_def stored_alice_def stored_bob_def Let_def increment_def id_limit_def)

theorem returned_records_have_no_password_witness:
  "sanitizeUser stored_alice \<in> set (records_of (fst (invoke GetUsers two_users))) \<and>
   password stored_alice = Some ''hashed:secret-one'' \<and>
   password (sanitizeUser stored_alice) = None"
proof -
  have m: "sanitizeUser stored_alice \<in> set (records_of (fst (invoke GetUsers two_users)))"
    by (simp add: two_users_eq getUsers_def)
  have p: "password stored_alice = Some ''hashed:secret-one''"
    by (simp add: stored_alice_def)
  from returned_records_have_no_password [of GetUsers two_users] m p show ?thesis by blast
qed




subsection \<open>Login\<close>




text \<open>The matching secret is accepted, so the rejection above is not the only answer.\<close>

lemma login_accepts:
  "login plain_compare plain_sign ''alice@example.com'' (Text ''secret-one'') two_users =
     Inr (Response 200 (TokenBody ''token:alice@example.com''))"
  by (simp add: login_def verifyCredentials_def bcrypt_compare_def two_users_eq
      stored_alice_def plain_compare_def generateToken_def plain_sign_def sanitizeUser_def)

subsection \<open>Update\<close>

lemma find_None_findIndex: "find P xs = None \<Longrightarrow> findIndex P xs = None"
  by (simp add: findIndex_None)

lemma updateUser_absent:
  assumes "find (\<lambda>u. user_id u = i) (users s) = None"
  shows "updateUser i d s = (Inl (Error ''Failed to update user''), s)"
  using find_None_findIndex [OF assms]
  by (simp add: updateUser_def updateUser_try_def catch_as_def)

lemma put_user_absent:
  assumes "find (\<lambda>u. user_id u = i) (users s) = None"
  shows "put_user i d s = (Response 404 (ErrorBody ''User not found''), s)"
  using assms by (simp add: put_user_def getUserById_def)

lemma updateUser_present:
  assumes "findIndex (\<lambda>u. user_id u = i) (users s) = Some k"
  shows "updateUser i d s =
           (Inr (sanitizeUser (assign_fields d (users s ! k))),
            s\<lparr>users := (users s)[k := assign_fields d (users s ! k)]\<rparr>)"
  using assms by (simp add: updateUser_def updateUser_try_def catch_as_def Let_def)

lemma assign_fields_name:
  "name (assign_fields d u) = (case upd_name d of Some n \<Rightarrow> n | None \<Rightarrow> name u)"
  by (simp add: assign_fields_def Let_def split: option.splits)

lemma assign_fields_email:
  "email (assign_fields d u) = (case upd_email d of Some e \<Rightarrow> e | None \<Rightarrow> email u)"
  by (simp add: assign_fields_def Let_def split: option.splits)

lemma assign_fields_role:
  "role (assign_fields d u) = (case upd_role d of Some r \<Rightarrow> Some r | None \<Rightarrow> role u)"
  by (simp add: assign_fields_def Let_def split: option.splits)

lemma assign_fields_frame:
  "password (assign_fields d u) = password u \<and> user_id (assign_fields d u) = user_id u \<and>
   createdAt (assign_fields d u) = createdAt u"
  by (simp add: assign_fields_def Let_def split: option.splits)

text \<open>
  Claim C4, as the code has it. For every identity and every partial update: if no
  record has the identity, \<^verbatim>\<open>updateUser\<close> fails with the error \<open>Failed to update user\<close>
  (its \<^verbatim>\<open>catch\<close> block replaces the \<open>User not found\<close> raised inside) and changes
  nothing, and the \<^verbatim>\<open>PUT\<close> handler answers 404 \<open>User not found\<close> from its own check.
  Otherwise the first record with the identity gets exactly the fields provided, keeps
  its other fields, among them the stored password, the identity and the creation
  date, no other record and not the counter changes, and the result is the updated
  record, sanitized.
\<close>

theorem updateUser_sets_given_fields_only:
  assumes "updateUser i d s = (r, s')"
  shows "(find (\<lambda>u. user_id u = i) (users s) = None \<longrightarrow>
            r = Inl (Error ''Failed to update user'') \<and> s' = s \<and>
            put_user i d s = (Response 404 (ErrorBody ''User not found''), s)) \<and>
         (findIndex (\<lambda>u. user_id u = i) (users s) = Some k \<longrightarrow>
            k < length (users s) \<and> user_id (users s ! k) = i \<and>
            idCounter s' = idCounter s \<and> length (users s') = length (users s) \<and>
            (\<forall>j. j \<noteq> k \<longrightarrow> users s' ! j = users s ! j) \<and>
            name (users s' ! k) =
              (case upd_name d of Some n \<Rightarrow> n | None \<Rightarrow> name (users s ! k)) \<and>
            email (users s' ! k) =
              (case upd_email d of Some e \<Rightarrow> e | None \<Rightarrow> email (users s ! k)) \<and>
            role (users s' ! k) =
              (case upd_role d of Some x \<Rightarrow> Some x | None \<Rightarrow> role (users s ! k)) \<and>
            password (users s' ! k) = password (users s ! k) \<and>
            user_id (users s' ! k) = user_id (users s ! k) \<and>
            createdAt (users s' ! k) = createdAt (users s ! k) \<and>
            r = Inr (sanitizeUser (users s' ! k)) \<and>
            r = Inr ((users s' ! k)\<lparr>password := None\<rparr>))"
proof (intro conjI impI)
  assume "find (\<lambda>u. user_id u = i) (users s) = None"
  then show "r = Inl (Error ''Failed to update user'')" and "s' = s"
    and "put_user i d s = (Response 404 (ErrorBody ''User not found''), s)"
    using assms by (simp_all add: updateUser_absent put_user_absent)
next
  assume k: "findIndex (\<lambda>u. user_id u = i) (users s) = Some k"
  from findIndex_Some [OF k] show len: "k < length (users s)"
    and "user_id (users s ! k) = i"
    by simp_all
  let ?u = "assign_fields d (users s ! k)"
  from updateUser_present [OF k, of d] assms
  have r: "r = Inr (sanitizeUser ?u)" and s': "s' = s\<lparr>users := (users s)[k := ?u]\<rparr>"
    by simp_all
  have at: "users s' ! k = ?u" using len by (simp add: s')
  show "idCounter s' = idCounter s" and "length (users s') = length (users s)"
    and "\<forall>j. j \<noteq> k \<longrightarrow> users s' ! j = users s ! j"
    by (simp_all add: s')
  show "name (users s' ! k) = (case upd_name d of Some n \<Rightarrow> n | None \<Rightarrow> name (users s ! k))"
    unfolding at by (rule assign_fields_name)
  show "email (users s' ! k) = (case upd_email d of Some e \<Rightarrow> e | None \<Rightarrow> email (users s ! k))"
    unfolding at by (rule assign_fields_email)
  show "role (users s' ! k) = (case upd_role d of Some x \<Rightarrow> Some x | None \<Rightarrow> role (users s ! k))"
    unfolding at by (rule assign_fields_role)
  show "password (users s' ! k) = password (users s ! k)"
    and "user_id (users s' ! k) = user_id (users s ! k)"
    and "createdAt (users s' ! k) = createdAt (users s ! k)"
    unfolding at by (simp_all add: assign_fields_frame)
  show "r = Inr (sanitizeUser (users s' ! k))" unfolding at by (rule r)
  then show "r = Inr ((users s' ! k)\<lparr>password := None\<rparr>)" by (simp add: sanitizeUser_def)
qed

theorem updateUser_sets_given_fields_only_witness:
  "updateUser 999 ghost two_users = (Inl (Error ''Failed to update user''), two_users) \<and>
   find (\<lambda>u. user_id u = 999) (users two_users) = None \<and>
   put_user 999 ghost two_users = (Response 404 (ErrorBody ''User not found''), two_users) \<and>
   updateUser 1 ghost two_users =
     (Inr (sanitizeUser (stored_alice\<lparr>name := ''Ghost''\<rparr>)),
      two_users\<lparr>users := [stored_alice\<lparr>name := ''Ghost''\<rparr>, stored_bob]\<rparr>) \<and>
   findIndex (\<lambda>u. user_id u = 1) (users two_users) = Some 0 \<and>
   password (users (two_users\<lparr>users := [stored_alice\<lparr>name := ''Ghost''\<rparr>, stored_bob]\<rparr>) ! 0) =
     Some ''hashed:secret-one''"
proof -
  have n: "find (\<lambda>u. user_id u = 999) (users two_users) = None"
    by (simp add: two_users_eq stored_alice_def stored_bob_def)
  have a: "updateUser 999 ghost two_users = (Inl (Error ''Failed to update user''), two_users)"
    by (rule updateUser_absent [OF n])
  have k: "findIndex (\<lambda>u. user_id u = 1) (users two_users) = Some 0"
    by (simp add: two_users_eq stored_alice_def)
  have g: "assign_fields ghost stored_alice = stored_alice\<lparr>name := ''Ghost''\<rparr>"
    by (simp add: assign_fields_def ghost_def)
  have b: "updateUser 1 ghost two_users =
     (Inr (sanitizeUser (stored_alice\<lparr>name := ''Ghost''\<rparr>)),
      two_users\<lparr>users := [stored_alice\<lparr>name := ''Ghost''\<rparr>, stored_bob]\<rparr>)"
    using updateUser_present [OF k, of ghost] g by (simp add: two_users_eq)
  from updateUser_sets_given_fields_only [OF a, of 0]
    updateUser_sets_given_fields_only [OF b, of 0] n k a b
  show ?thesis by (simp add: two_users_eq stored_alice_def)
qed

text \<open>
  Claim C4 as stated fails where it names the error: on the empty store the update of
  identity 999 fails with \<open>Failed to update user\<close>, not with \<open>User not found\<close>.
\<close>

theorem updateUser_absent_id_counterexample:
  "fst (updateUser 999 ghost init_store) = Inl (Error ''Failed to update user'') \<and>
   fst (updateUser 999 ghost init_store) \<noteq> Inl (Error ''User not found'')"
  by (simp add: updateUser_def updateUser_try_def catch_as_def init_store_def)

text \<open>
  Claim C10. \<^verbatim>\<open>updateUser\<close> checks no email: in the store of two records with distinct
  emails, giving the second record the email of the first succeeds and leaves two
  live records with the same email, while the \<^verbatim>\<open>PUT\<close> handler refuses the same request
  with 409 and changes nothing.
\<close>

theorem updateUser_without_uniqueness_check:
  "map email (users two_users) = [''alice@example.com'', ''bob@example.com''] \<and>
   fst (updateUser 2 take_alices_email two_users) =
     Inr (sanitizeUser (stored_bob\<lparr>email := ''alice@example.com''\<rparr>)) \<and>
   users (snd (updateUser 2 take_alices_email two_users)) =
     [stored_alice, stored_bob\<lparr>email := ''alice@example.com''\<rparr>] \<and>
   map email (users (snd (updateUser 2 take_alices_email two_users))) =
     [''alice@example.com'', ''alice@example.com''] \<and>
   map user_id (users (snd (updateUser 2 take_alices_email two_users))) = [1, 2] \<and>
   put_user 2 take_alices_email two_users =
     (Response 409 (ErrorBody ''Email already exists''), two_users)"
proof -
  have k: "findIndex (\<lambda>u. user_id u = 2) (users two_users) = Some 1"
    by (simp add: two_users_eq stored_alice_def stored_bob_def)
  have a: "assign_fields take_alices_email stored_bob = stored_bob\<lparr>email := ''alice@example.com''\<rparr>"
    by (simp add: assign_fields_def take_alices_email_def)
  have u: "updateUser 2 take_alices_email two_users =
      (Inr (sanitizeUser (stored_bob\<lparr>email := ''alice@example.com''\<rparr>)),
       two_users\<lparr>users := [stored_alice, stored_bob\<lparr>email := ''alice@example.com''\<rparr>]\<rparr>)"
    using updateUser_present [OF k, of take_alices_email] a by (simp add: two_users_eq)
  have p: "put_user 2 take_alices_email two_users =
     (Response 409 (ErrorBody ''Email already exists''), two_users)"
    by (simp add: put_user_def getUserById_def getUserByEmail_def two_users_eq stored_alice_def
        stored_bob_def take_alices_email_def sanitizeUser_def)
  show ?thesis unfolding u p
    by (simp add: two_users_eq stored_alice_def stored_bob_def)
qed

section \<open>The list component\<close>

subsection \<open>The sort state and the fetch\<close>

lemma currentSort_sortUsers:
  "currentSort (sortUsers rt fld given c) =
     \<lparr>field = fld,
      direction = (case given of
                     Some d \<Rightarrow> d
                   | None \<Rightarrow> if fld = field (currentSort c) \<and> direction (currentSort c) = asc
                             then desc else asc)\<rparr>"
  by (simp add: sortUsers_def applySorting_def apply_limit_def alloc_def Let_def
      split: option.splits)

text \<open>
  Claim C7. A sort request with no direction flips the direction when it names the
  current sort field and sets it to ascending when it names another field.
\<close>

theorem sort_request_toggles_direction:
  "(fld = field (currentSort c) \<longrightarrow>
      direction (currentSort (sortUsers rt fld None c)) =
        (case direction (currentSort c) of asc \<Rightarrow> desc | desc \<Rightarrow> asc)) \<and>
   (fld \<noteq> field (currentSort c) \<longrightarrow>
      direction (currentSort (sortUsers rt fld None c)) = asc) \<and>
   field (currentSort (sortUsers rt fld None c)) = fld"
  by (simp add: currentSort_sortUsers split: SortDirection.splits)

theorem sort_request_toggles_direction_witness:
  "''name'' = field (currentSort (new_component None)) \<and>
   direction (currentSort (new_component None)) = asc \<and>
   direction (currentSort (sortUsers plain_runtime ''name'' None (new_component None))) = desc \<and>
   ''email'' \<noteq> field (currentSort (sortUsers plain_runtime ''name'' None (new_component None))) \<and>
   direction (currentSort
     (sortUsers plain_runtime ''email'' None
        (sortUsers plain_runtime ''name'' None (new_component None)))) = asc"
proof -
  have a: "''name'' = field (currentSort (new_component None))"
    and b: "direction (currentSort (new_component None)) = asc"
    by (simp_all add: new_component_def)
  have c: "''email'' \<noteq> field (currentSort (sortUsers plain_runtime ''name'' None (new_component None)))"
    by (simp add: currentSort_sortUsers)
  from sort_request_toggles_direction [of "''name''" "new_component None" plain_runtime]
    sort_request_toggles_direction [of "''email''"
      "sortUsers plain_runtime ''name'' None (new_component None)" plain_runtime] a b c
  show ?thesis by simp
qed

text \<open>
  Claim C8. A failed fetch sets the one error message and the loading flag to false
  and leaves the displayed list and the fetched set as they were; after any fetch
  outcome the loading flag is false.
\<close>

theorem failed_fetch_keeps_lists:
  "error (getUsers_component rt (FetchFailed err) c) =
     Some ''Failed to load users. Please try again later.'' \<and>
   loading (getUsers_component rt (FetchFailed err) c) = False \<and>
   users_ref (getUsers_component rt (FetchFailed err) c) = users_ref c \<and>
   allUsers_ref (getUsers_component rt (FetchFailed err) c) = allUsers_ref c \<and>
   heap (getUsers_component rt (FetchFailed err) c) = heap c \<and>
   displayed (getUsers_component rt (FetchFailed err) c) = displayed c \<and>
   fetched (getUsers_component rt (FetchFailed err) c) = fetched c \<and>
   loading (getUsers_component rt outcome c) = False"
  by (cases outcome)
    (simp_all add: getUsers_component_def displayed_def fetched_def Let_def split: prod.splits)

subsection \<open>The arrays\<close>

lemma sortUsers_frame:
  "unchanged_below c (sortUsers rt fld given c) \<and>
   free c \<le> users_ref (sortUsers rt fld given c) \<and>
   users_ref (sortUsers rt fld given c) < free (sortUsers rt fld given c)"
  by (simp add: unchanged_below_def sortUsers_def applySorting_def apply_limit_def alloc_def
      Let_def split: option.splits)

lemma filterUsers_frame:
  "unchanged_below c (filterUsers rt typed c) \<and>
   free c \<le> users_ref (filterUsers rt typed c) \<and>
   users_ref (filterUsers rt typed c) < free (filterUsers rt typed c)"
  by (simp add: unchanged_below_def filterUsers_def sortUsers_def applySorting_def
      apply_limit_def alloc_def Let_def split: option.splits)

lemma wf_new_component: "wf_component (new_component lim)"
  by (simp add: wf_component_def new_component_def)

lemma wf_sortUsers: "wf_component c \<Longrightarrow> wf_component (sortUsers rt fld given c)"
  using sortUsers_frame [of c rt fld given]
  by (auto simp: wf_component_def unchanged_below_def)

lemma wf_filterUsers: "wf_component c \<Longrightarrow> wf_component (filterUsers rt typed c)"
  using filterUsers_frame [of c rt typed]
  by (auto simp: wf_component_def unchanged_below_def)

lemma getUsers_component_Fetched:
  "getUsers_component rt (Fetched data) c =
     (sortUsers rt (field (currentSort c)) (Some (direction (currentSort c)))
        (c\<lparr>loading := True, error := None, heap := (heap c)(free c := data),
           free := Suc (free c), allUsers_ref := free c\<rparr>))\<lparr>loading := False\<rparr>"
  by (simp add: getUsers_component_def alloc_def Let_def)

lemma wf_getUsers_component:
  assumes "wf_component c"
  shows "wf_component (getUsers_component rt outcome c)"
proof (cases outcome)
  case (Fetched data)
  let ?c = "c\<lparr>loading := True, error := None, heap := (heap c)(free c := data),
              free := Suc (free c), allUsers_ref := free c\<rparr>"
  have "wf_component ?c" using assms by (simp add: wf_component_def)
  from wf_sortUsers [OF this] Fetched show ?thesis
    by (simp add: getUsers_component_Fetched wf_component_def)
next
  case (FetchFailed err)
  with assms show ?thesis by (simp add: getUsers_component_def wf_component_def)
qed

text \<open>
  Claim C9. A sort and a filter operation leave the fetched set as it was, the same
  array with the same elements in the same order; the array they sort is a new one,
  no array allocated before is written, and the displayed list becomes a new array.
  The reference \<^verbatim>\<open>allUsers\<close> is an allocated one, as in every state of the component.
\<close>

theorem filter_and_sort_keep_fetched_set:
  assumes "allUsers_ref c < free c"
  shows "allUsers_ref (sortUsers rt fld given c) = allUsers_ref c \<and>
         fetched (sortUsers rt fld given c) = fetched c \<and>
         (\<forall>r. r < free c \<longrightarrow> heap (sortUsers rt fld given c) r = heap c r) \<and>
         free c \<le> users_ref (sortUsers rt fld given c) \<and>
         users_ref (sortUsers rt fld given c) \<noteq> allUsers_ref c \<and>
         allUsers_ref (filterUsers rt typed c) = allUsers_ref c \<and>
         fetched (filterUsers rt typed c) = fetched c \<and>
         (\<forall>r. r < free c \<longrightarrow> heap (filterUsers rt typed c) r = heap c r) \<and>
         free c \<le> users_ref (filterUsers rt typed c) \<and>
         users_ref (filterUsers rt typed c) \<noteq> allUsers_ref c"
  using assms sortUsers_frame [of c rt fld given] filterUsers_frame [of c rt typed]
  by (auto simp: unchanged_below_def fetched_def)

lemma wf_loaded_pair: "wf_component loaded_pair"
  unfolding loaded_pair_def by (rule wf_getUsers_component [OF wf_new_component])

lemma fetched_sortUsers:
  "allUsers_ref c < free c \<Longrightarrow> fetched (sortUsers rt fld given c) = fetched c"
  using sortUsers_frame [of c rt fld given] by (simp add: unchanged_below_def fetched_def)

lemma fetched_filterUsers:
  "allUsers_ref c < free c \<Longrightarrow> fetched (filterUsers rt typed c) = fetched c"
  using filterUsers_frame [of c rt typed] by (simp add: unchanged_below_def fetched_def)

lemma settings_sortUsers:
  "limit (sortUsers rt fld given c) = limit c \<and>
   filterText (sortUsers rt fld given c) = filterText c"
  by (simp add: sortUsers_def applySorting_def apply_limit_def alloc_def Let_def
      split: option.splits)

lemma settings_filterUsers:
  "limit (filterUsers rt typed c) = limit c \<and>
   filterText (filterUsers rt typed c) = trim (toLowerCase typed) \<and>
   currentSort (filterUsers rt typed c) = currentSort c"
  by (simp add: filterUsers_def settings_sortUsers currentSort_sortUsers applySorting_def
      apply_limit_def alloc_def Let_def split: option.splits)

lemma fetched_loading_update: "fetched (c\<lparr>loading := b\<rparr>) = fetched c"
  by (simp add: fetched_def)

lemma after_fetch:
  "fetched (getUsers_component rt (Fetched data) c) = data \<and>
   limit (getUsers_component rt (Fetched data) c) = limit c \<and>
   filterText (getUsers_component rt (Fetched data) c) = filterText c \<and>
   currentSort (getUsers_component rt (Fetched data) c) = currentSort c"
proof -
  let ?c = "c\<lparr>loading := True, error := None, heap := (heap c)(free c := data),
              free := Suc (free c), allUsers_ref := free c\<rparr>"
  have "allUsers_ref ?c < free ?c" by simp
  from fetched_sortUsers [OF this]
  have "fetched (sortUsers rt (field (currentSort c)) (Some (direction (currentSort c))) ?c) = data"
    by (simp add: fetched_def)
  then show ?thesis
    by (simp add: getUsers_component_Fetched fetched_loading_update settings_sortUsers
        currentSort_sortUsers)
qed

theorem filter_and_sort_keep_fetched_set_witness:
  "allUsers_ref loaded_pair < free loaded_pair \<and>
   fetched loaded_pair = [alice, bob] \<and>
   fetched (sortUsers plain_runtime ''name'' (Some desc) loaded_pair) = [alice, bob] \<and>
   fetched (filterUsers plain_runtime ''bob'' loaded_pair) = [alice, bob]"
proof -
  have w: "allUsers_ref loaded_pair < free loaded_pair"
    using wf_loaded_pair by (simp add: wf_component_def)
  have f: "fetched loaded_pair = [alice, bob]"
    by (simp add: loaded_pair_def after_fetch)
  from filter_and_sort_keep_fetched_set [OF w, of plain_runtime "''name''" "Some desc" "''bob''"]
    w f
  show ?thesis by simp
qed

subsection \<open>The comparator\<close>

lemma compareUsers_undefined_left:
  "property fld a = None \<Longrightarrow> compareUsers rt fld dir a b = (if dir = asc then - 1 else 1)"
  by (simp add: compareUsers_def)

lemma compareUsers_undefined_right:
  "property fld a \<noteq> None \<Longrightarrow> property fld b = None \<Longrightarrow>
   compareUsers rt fld dir a b = (if dir = asc then 1 else - 1)"
  by (auto simp: compareUsers_def)

lemma js_sort_pair:
  "js_sort cmp [x, y] = (if cmp x y \<le> 0 then [x, y] else [y, x])"
  by (simp add: js_sort_def)

text \<open>
  Claim C5, as the code has it. For every sort field and every two records of which
  exactly one has an undefined value for the field, the comparator puts the record
  with the undefined value first when the direction is ascending and last when it is
  descending, whichever of the two comes first in the array.
\<close>

theorem undefined_first_ascending_last_descending:
  assumes "property fld a = None" and "property fld b \<noteq> None"
  shows "compareUsers rt fld asc a b < 0 \<and> 0 < compareUsers rt fld asc b a \<and>
         js_sort (compareUsers rt fld asc) [a, b] = [a, b] \<and>
         js_sort (compareUsers rt fld asc) [b, a] = [a, b] \<and>
         0 < compareUsers rt fld desc a b \<and> compareUsers rt fld desc b a < 0 \<and>
         js_sort (compareUsers rt fld desc) [a, b] = [b, a] \<and>
         js_sort (compareUsers rt fld desc) [b, a] = [b, a]"
  using assms
  by (simp add: js_sort_pair compareUsers_undefined_left compareUsers_undefined_right)

theorem undefined_first_ascending_last_descending_witness:
  "property ''role'' alice = None \<and> property ''role'' bob \<noteq> None \<and>
   js_sort (compareUsers plain_runtime ''role'' asc) [bob, alice] = [alice, bob] \<and>
   js_sort (compareUsers plain_runtime ''role'' desc) [alice, bob] = [bob, alice]"
proof -
  have a: "property ''role'' alice = None" by (simp add: property_def alice_def mk_user_def)
  have b: "property ''role'' bob \<noteq> None" by (simp add: property_def bob_def mk_user_def)
  from undefined_first_ascending_last_descending [OF a b, of plain_runtime] a b
  show ?thesis by simp
qed

lemma cap_list_None: "cap_list None xs = xs"
  by (simp add: cap_list_def)

lemma displayed_sortUsers:
  "displayed (sortUsers rt fld given c) =
     cap_list (limit c)
       (js_sort (compareUsers rt fld (direction (currentSort (sortUsers rt fld given c))))
          (if filterText c \<noteq> [] then displayed c else fetched c))"
  by (simp add: currentSort_sortUsers)
    (simp add: displayed_def fetched_def sortUsers_def applySorting_def apply_limit_def
      alloc_def cap_list_def Let_def split: option.splits)

lemma loaded_pair_facts:
  "fetched loaded_pair = [alice, bob] \<and> limit loaded_pair = None \<and> filterText loaded_pair = []"
  by (simp add: loaded_pair_def after_fetch new_component_def)

text \<open>
  Claim C5 as stated fails on the data of the component's own test: the role of the
  first record is undefined, and sorting by role puts that record first when
  ascending and last when descending.
\<close>

theorem undefined_last_ascending_counterexample:
  "property ''role'' alice = None \<and> property ''role'' bob = Some (Str ''User'') \<and>
   alice \<noteq> bob \<and>
   displayed (sortUsers plain_runtime ''role'' (Some asc) loaded_pair) = [alice, bob] \<and>
   displayed (sortUsers plain_runtime ''role'' (Some desc) loaded_pair) = [bob, alice]"
proof -
  have a: "property ''role'' alice = None" by (simp add: property_def alice_def mk_user_def)
  have b: "property ''role'' bob = Some (Str ''User'')"
    by (simp add: property_def bob_def mk_user_def)
  have n: "alice \<noteq> bob" by (simp add: alice_def bob_def mk_user_def)
  have u: "compareUsers plain_runtime ''role'' asc alice bob = - 1"
    "compareUsers plain_runtime ''role'' desc alice bob = 1"
    using a by (simp_all add: compareUsers_undefined_left)
  have "displayed (sortUsers plain_runtime ''role'' (Some asc) loaded_pair) = [alice, bob]"
    by (simp add: displayed_sortUsers currentSort_sortUsers loaded_pair_facts cap_list_None
        js_sort_pair u)
  moreover
  have "displayed (sortUsers plain_runtime ''role'' (Some desc) loaded_pair) = [bob, alice]"
    by (simp add: displayed_sortUsers currentSort_sortUsers loaded_pair_facts cap_list_None
        js_sort_pair u)
  ultimately show ?thesis using a b n by simp
qed

subsection \<open>Filter, sort and cap\<close>

lemma displayed_filterUsers:
  "trim (toLowerCase typed) \<noteq> [] \<Longrightarrow>
   displayed (filterUsers rt typed c) =
     cap_list (limit c)
       (js_sort (compareUsers rt (field (currentSort c)) (direction (currentSort c)))
          (filter (matches (trim (toLowerCase typed))) (fetched c)))"
  by (simp add: displayed_def fetched_def filterUsers_def applySorting_def apply_limit_def
      alloc_def cap_list_def Let_def split: option.splits)

text \<open>
  With a positive cap or none, a filter operation, and a sort request while no filter
  is active, display what the specification's pipeline gives.
\<close>

lemma filterUsers_meets_spec:
  assumes "allUsers_ref c < free c" and "limit c = None \<or> (\<exists>n. limit c = Some n \<and> 0 < n)"
  shows "displayed (filterUsers rt typed c) = spec_pipeline rt (filterUsers rt typed c)"
proof (cases "trim (toLowerCase typed) = []")
  case True
  then have "filterUsers rt typed c =
      sortUsers rt (field (currentSort c)) (Some (direction (currentSort c)))
        (c\<lparr>filterText := []\<rparr>)"
    by (simp add: filterUsers_def)
  moreover have "allUsers_ref (c\<lparr>filterText := []\<rparr>) < free (c\<lparr>filterText := []\<rparr>)"
    using assms(1) by simp
  ultimately show ?thesis
    using assms(2) fetched_sortUsers [of "c\<lparr>filterText := []\<rparr>"]
    by (auto simp: displayed_sortUsers spec_pipeline_def settings_sortUsers currentSort_sortUsers
        fetched_def cap_list_def slice0_def)
next
  case False
  with assms show ?thesis
    by (auto simp: displayed_filterUsers spec_pipeline_def settings_filterUsers
        fetched_filterUsers cap_list_def slice0_def)
qed

lemma sortUsers_meets_spec_without_filter:
  assumes "allUsers_ref c < free c" and "limit c = None \<or> (\<exists>n. limit c = Some n \<and> 0 < n)"
    and "filterText c = []"
  shows "displayed (sortUsers rt fld given c) = spec_pipeline rt (sortUsers rt fld given c)"
  using assms
  by (auto simp: displayed_sortUsers spec_pipeline_def settings_sortUsers currentSort_sortUsers
      fetched_sortUsers cap_list_def slice0_def)

text \<open>The example with a cap of two, step by step.\<close>

lemma wf_loaded_three: "allUsers_ref loaded_three < free loaded_three"
  using wf_getUsers_component [OF wf_new_component, of plain_runtime
      "Fetched [carol, alice, bob]" "Some 2"]
  by (simp add: loaded_three_def wf_component_def)

lemma loaded_three_facts:
  "fetched loaded_three = [carol, alice, bob] \<and> limit loaded_three = Some 2 \<and>
   filterText loaded_three = [] \<and>
   currentSort loaded_three = \<lparr>field = ''name'', direction = asc\<rparr>"
  by (simp add: loaded_three_def after_fetch new_component_def)

lemma normalised: "trim (toLowerCase '' Example '') = ''example''"
  by code_simp

lemma all_match:
  "matches ''example'' carol" "matches ''example'' alice" "matches ''example'' bob"
  by code_simp+

lemma by_name_asc:
  "js_sort (compareUsers plain_runtime ''name'' asc) [carol, alice, bob] = [alice, bob, carol]"
  by code_simp

lemma by_name_desc:
  "js_sort (compareUsers plain_runtime ''name'' desc) [alice, bob] = [bob, alice]"
  "js_sort (compareUsers plain_runtime ''name'' desc) [carol, alice, bob] = [carol, bob, alice]"
  by code_simp+

lemma filtered_three_facts:
  "fetched filtered_three = [carol, alice, bob] \<and> limit filtered_three = Some 2 \<and>
   filterText filtered_three = ''example'' \<and>
   currentSort filtered_three = \<lparr>field = ''name'', direction = asc\<rparr> \<and>
   displayed filtered_three = [alice, bob]"
  by (simp add: filtered_three_def settings_filterUsers fetched_filterUsers wf_loaded_three
      loaded_three_facts displayed_filterUsers normalised all_match by_name_asc cap_list_def
      slice0_def)

text \<open>
  Claim C6 fails on the code. With the records Carol, Alice and Bob fetched, a cap of
  two and the filter \<open>example\<close>, which every record matches, the list displayed is
  Alice, Bob. A sort request for the name with no direction then sorts these two
  records only: the list displayed is Bob, Alice, while filtering the fetched set,
  sorting it by name descending and then cutting it to two gives Carol, Bob.
\<close>

theorem sort_under_filter_and_cap_diverges:
  "fetched resorted_three = [carol, alice, bob] \<and>
   filterText resorted_three = ''example'' \<and>
   limit resorted_three = Some 2 \<and>
   currentSort resorted_three = \<lparr>field = ''name'', direction = desc\<rparr> \<and>
   displayed filtered_three = [alice, bob] \<and>
   displayed resorted_three = [bob, alice] \<and>
   spec_pipeline plain_runtime resorted_three = [carol, bob]"
proof -
  have wf: "allUsers_ref filtered_three < free filtered_three"
    using filterUsers_frame [of loaded_three plain_runtime "'' Example ''"] wf_loaded_three
    by (simp add: filtered_three_def unchanged_below_def)
  have f: "fetched resorted_three = [carol, alice, bob]"
    by (simp add: resorted_three_def fetched_sortUsers [OF wf] filtered_three_facts)
  have s: "filterText resorted_three = ''example''" "limit resorted_three = Some 2"
    by (simp_all add: resorted_three_def settings_sortUsers filtered_three_facts)
  have c: "currentSort resorted_three = \<lparr>field = ''name'', direction = desc\<rparr>"
    by (simp add: resorted_three_def currentSort_sortUsers filtered_three_facts)
  have d: "displayed resorted_three = [bob, alice]"
    unfolding resorted_three_def displayed_sortUsers
    by (simp add: currentSort_sortUsers filtered_three_facts by_name_desc cap_list_def slice0_def)
  have p: "spec_pipeline plain_runtime resorted_three = [carol, bob]"
    by (simp add: spec_pipeline_def f s c all_match by_name_desc)
  from f s c d p filtered_three_facts show ?thesis by simp
qed

end
